theory Spec2Isabelle
  imports Main "HOL-Library.AList" "HOL-Library.Sublist"
begin

section \<open>The document\<close>

text \<open>
  The script \<^verbatim>\<open>assets/js/script.js\<close> reads and mutates the elements of the page it is
  loaded into. An element is identified by its position in document order (the order in
  which \<^verbatim>\<open>querySelectorAll\<close> lists elements); the script never creates or removes an
  element, so a position names the same element throughout.

  A \<open>string\<close> is a list of code units; every \<open>char\<close> stands for one UTF-16 code unit
  below 256.

  The \<^verbatim>\<open>id\<close> and \<^verbatim>\<open>class\<close> attributes are kept in fields of their own
  (\<open>elem_id\<close>, \<open>classList\<close>); \<open>attributes\<close> holds the others, in the order of the
  element's attribute list. \<open>style\<close> is the inline style declaration.
\<close>

record element =
  tag :: string
  parent :: "nat option"
  elem_id :: "string option"
  classList :: "string list"
  attributes :: "(string \<times> string) list"
  style :: "(string \<times> string) list"

text \<open>
  Besides the elements, the page records the effects of the browser calls the script
  makes: the element \<^verbatim>\<open>focus()\<close> was last called on, the elements
  \<^verbatim>\<open>scrollIntoView({behavior: 'smooth'})\<close> and \<^verbatim>\<open>click()\<close> were called on (oldest
  first), the targets the observer of \<^verbatim>\<open>quickReveal\<close> is observing, and the elements
  with a pending \<^verbatim>\<open>setTimeout(() => target.removeAttribute('tabindex'), 1000)\<close>.
\<close>

record page =
  nodes :: "element list"
  focus_target :: "nat option"
  scrolled :: "nat list"
  clicked :: "nat list"
  observed :: "nat list"
  timers :: "nat list"

record event =
  target :: nat
  key :: string
  defaultPrevented :: bool

record entry =
  io_target :: nat
  isIntersecting :: bool

datatype js_error = TypeError | SyntaxError

datatype outcome = Done | Threw js_error

subsection \<open>Element operations\<close>

definition upd :: "nat \<Rightarrow> (element \<Rightarrow> element) \<Rightarrow> page \<Rightarrow> page" where
  "upd i f d = d\<lparr>nodes := (nodes d)[i := f (nodes d ! i)]\<rparr>"

definition class_contains :: "string \<Rightarrow> element \<Rightarrow> bool" where
  "class_contains c e = (c \<in> set (classList e))"

definition class_remove :: "string \<Rightarrow> element \<Rightarrow> element" where
  "class_remove c e = e\<lparr>classList := removeAll c (classList e)\<rparr>"

definition class_add :: "string \<Rightarrow> element \<Rightarrow> element" where
  "class_add c e = (if c \<in> set (classList e) then e else e\<lparr>classList := classList e @ [c]\<rparr>)"

text \<open>\<^verbatim>\<open>classList.toggle(c)\<close>: the new list; its return value is whether \<open>c\<close> is now present.\<close>

definition class_toggle :: "string \<Rightarrow> element \<Rightarrow> element" where
  "class_toggle c e = (if c \<in> set (classList e) then class_remove c e else class_add c e)"

definition getAttribute :: "string \<Rightarrow> element \<Rightarrow> string option" where
  "getAttribute k e = map_of (attributes e) k"

definition setAttribute :: "string \<Rightarrow> string \<Rightarrow> element \<Rightarrow> element" where
  "setAttribute k v e = e\<lparr>attributes := AList.update k v (attributes e)\<rparr>"

definition set_style :: "string \<Rightarrow> string \<Rightarrow> element \<Rightarrow> element" where
  "set_style k v e = e\<lparr>style := AList.update k v (style e)\<rparr>"

definition get_style :: "string \<Rightarrow> element \<Rightarrow> string option" where
  "get_style k e = map_of (style e) k"

definition focus :: "nat \<Rightarrow> page \<Rightarrow> page" where
  "focus i d = d\<lparr>focus_target := Some i\<rparr>"

definition scrollIntoView :: "nat \<Rightarrow> page \<Rightarrow> page" where
  "scrollIntoView i d = d\<lparr>scrolled := scrolled d @ [i]\<rparr>"

definition click :: "nat \<Rightarrow> page \<Rightarrow> page" where
  "click i d = d\<lparr>clicked := clicked d @ [i]\<rparr>"

text \<open>\<^verbatim>\<open>a.contains(b)\<close>: \<open>a\<close> is \<open>b\<close> or an ancestor of \<open>b\<close>. The walk up the parents
  is bounded by the number of elements.\<close>

fun contains_from :: "nat \<Rightarrow> element list \<Rightarrow> nat \<Rightarrow> nat \<Rightarrow> bool" where
  "contains_from 0 ns a b = (a = b)"
| "contains_from (Suc k) ns a b =
     (a = b \<or> (case parent (ns ! b) of None \<Rightarrow> False | Some p \<Rightarrow> contains_from k ns a p))"

definition node_contains :: "page \<Rightarrow> nat \<Rightarrow> nat \<Rightarrow> bool" where
  "node_contains d a b = contains_from (length (nodes d)) (nodes d) a b"

subsection \<open>Selectors\<close>

text \<open>
  The selectors the script writes out are comma-separated lists of compound selectors
  made of type, class, id and attribute tests. In an HTML document the value of a
  \<^verbatim>\<open>target\<close> attribute is compared without regard to ASCII case (\<open>AttrEqCI\<close>), that of
  an \<^verbatim>\<open>href\<close> exactly.
\<close>

definition lower :: "char \<Rightarrow> char" where
  "lower c = (let n = (of_char c :: nat) in if 65 \<le> n \<and> n \<le> 90 then char_of (n + 32) else c)"

datatype simple_sel =
    Tag string
  | Class string
  | Id string
  | AttrEq string string
  | AttrEqCI string string
  | AttrStarts string string

type_synonym selector = "simple_sel list list"

fun matches_simple :: "element \<Rightarrow> simple_sel \<Rightarrow> bool" where
  "matches_simple e (Tag t) = (tag e = t)"
| "matches_simple e (Class c) = (c \<in> set (classList e))"
| "matches_simple e (Id i) = (elem_id e = Some i)"
| "matches_simple e (AttrEq a v) = (map_of (attributes e) a = Some v)"
| "matches_simple e (AttrEqCI a v) =
     (case map_of (attributes e) a of None \<Rightarrow> False | Some w \<Rightarrow> map lower w = map lower v)"
| "matches_simple e (AttrStarts a v) =
     (case map_of (attributes e) a of None \<Rightarrow> False | Some w \<Rightarrow> v \<noteq> [] \<and> prefix v w)"

definition matches :: "element \<Rightarrow> selector \<Rightarrow> bool" where
  "matches e s = list_ex (list_all (matches_simple e)) s"

type_synonym matcher = "element list \<Rightarrow> nat \<Rightarrow> bool"

definition select_all :: "matcher \<Rightarrow> page \<Rightarrow> nat list" where
  "select_all m d = filter (m (nodes d)) [0..<length (nodes d)]"

definition select_first :: "matcher \<Rightarrow> page \<Rightarrow> nat option" where
  "select_first m d = (case select_all m d of [] \<Rightarrow> None | i # _ \<Rightarrow> Some i)"

definition sel_matcher :: "selector \<Rightarrow> matcher" where
  "sel_matcher s ns i = matches (ns ! i) s"

definition qsa :: "page \<Rightarrow> selector \<Rightarrow> nat list" where
  "qsa d s = select_all (sel_matcher s) d"

definition qs :: "page \<Rightarrow> selector \<Rightarrow> nat option" where
  "qs d s = select_first (sel_matcher s) d"

text \<open>
  Two calls pass \<^verbatim>\<open>querySelector\<close> a string computed from an \<^verbatim>\<open>href\<close> attribute. What
  such a string selects is decided by the browser's selector parser, which is not part
  of the script: it is the parameter \<open>parse\<close>, giving \<open>None\<close> where the browser throws a
  \<^verbatim>\<open>SyntaxError\<close> and otherwise the test the parsed selector makes of an element of
  the document.
\<close>

type_synonym css = "string \<Rightarrow> matcher option"

definition qs_dyn :: "css \<Rightarrow> page \<Rightarrow> string \<Rightarrow> js_error + nat option" where
  "qs_dyn parse d s =
     (case parse s of None \<Rightarrow> Inl SyntaxError | Some m \<Rightarrow> Inr (select_first m d))"

section \<open>The script\<close>

subsection \<open>\<^verbatim>\<open>setupNavToggle\<close>\<close>

text \<open>
  \<open>setupNavToggle\<close> gives the toggle and the list its four listeners close over, or
  \<open>None\<close> when it returns before registering any.
\<close>

definition setupNavToggle :: "page \<Rightarrow> (nat \<times> nat) option" where
  "setupNavToggle d =
     (case qs d [[Class ''nav__toggle'']] of
        None \<Rightarrow> None
      | Some t \<Rightarrow>
          (case qs d [[Class ''nav__list'']] of
             None \<Rightarrow> None
           | Some l \<Rightarrow> Some (t, l)))"

text \<open>The click listener of the toggle; \<^verbatim>\<open>setAttribute\<close> writes the boolean as a string.\<close>

definition toggle_click :: "nat \<Rightarrow> nat \<Rightarrow> page \<Rightarrow> page" where
  "toggle_click t l d =
     (let d1 = upd l (class_toggle ''open'') d;
          opn = class_contains ''open'' (nodes d1 ! l)
      in upd t (setAttribute ''aria-expanded'' (if opn then ''true'' else ''false'')) d1)"

definition close_nav :: "nat \<Rightarrow> nat \<Rightarrow> page \<Rightarrow> page" where
  "close_nav t l d =
     upd t (setAttribute ''aria-expanded'' ''false'') (upd l (class_remove ''open'') d)"

text \<open>The click listener of the list.\<close>

definition list_click :: "nat \<Rightarrow> nat \<Rightarrow> event \<Rightarrow> page \<Rightarrow> page" where
  "list_click t l e d =
     (if class_contains ''nav__link'' (nodes d ! target e) then close_nav t l d else d)"

text \<open>The click listener of the document.\<close>

definition document_click :: "nat \<Rightarrow> nat \<Rightarrow> event \<Rightarrow> page \<Rightarrow> page" where
  "document_click t l e d =
     (if \<not> node_contains d t (target e) \<and> \<not> node_contains d l (target e)
      then close_nav t l d else d)"

text \<open>The keydown listener of the document.\<close>

definition document_keydown :: "nat \<Rightarrow> nat \<Rightarrow> event \<Rightarrow> page \<Rightarrow> page" where
  "document_keydown t l e d =
     (if key e = ''Escape'' \<and> class_contains ''open'' (nodes d ! l)
      then focus t (close_nav t l d) else d)"

subsection \<open>\<^verbatim>\<open>setupActiveLinkObserver\<close>\<close>







subsection \<open>\<^verbatim>\<open>quickReveal\<close>\<close>

definition reveal_items :: selector where
  "reveal_items =
     [[Class ''section''], [Class ''exp-card''], [Class ''feature''], [Class ''skill-block''],
      [Class ''cert-card''], [Class ''profile__contact''], [Class ''profile__panel''],
      [Class ''metric'']]"

definition observe :: "nat \<Rightarrow> page \<Rightarrow> page" where
  "observe el d = (if el \<in> set (observed d) then d else d\<lparr>observed := observed d @ [el]\<rparr>)"

definition unobserve :: "nat \<Rightarrow> page \<Rightarrow> page" where
  "unobserve el d = d\<lparr>observed := removeAll el (observed d)\<rparr>"

definition show_now :: "element \<Rightarrow> element" where
  "show_now el = set_style ''transform'' ''none'' (set_style ''opacity'' ''1'' el)"

definition hide :: "element \<Rightarrow> element" where
  "hide el =
     set_style ''transition'' ''opacity .6s ease, transform .6s ease''
       (set_style ''transform'' ''translateY(20px)'' (set_style ''opacity'' ''0'' el))"

definition reveal :: "element \<Rightarrow> element" where
  "reveal el = set_style ''transform'' ''translateY(0)'' (set_style ''opacity'' ''1'' el)"

text \<open>\<open>has_io\<close> is \<^verbatim>\<open>'IntersectionObserver' in window\<close>.\<close>

definition quickReveal :: "bool \<Rightarrow> page \<Rightarrow> page" where
  "quickReveal has_io d =
     (let items = qsa d reveal_items
      in if \<not> has_io then fold (\<lambda>el. upd el show_now) items d
         else fold observe items (fold (\<lambda>el. upd el hide) items d))"

text \<open>The callback of the observer, run by the browser on a batch of entries.\<close>

definition reveal_entry :: "entry \<Rightarrow> page \<Rightarrow> page" where
  "reveal_entry en d =
     (if isIntersecting en then unobserve (io_target en) (upd (io_target en) reveal d) else d)"

definition reveal_callback :: "entry list \<Rightarrow> page \<Rightarrow> page" where
  "reveal_callback entries d = fold reveal_entry entries d"

subsection \<open>\<^verbatim>\<open>secureExternalLinks\<close>\<close>

text \<open>\<^verbatim>\<open>/noopener/i.test(s)\<close>: some position of \<open>s\<close> starts the pattern, case ignored.\<close>

fun test_noopener :: "string \<Rightarrow> bool" where
  "test_noopener [] = False"
| "test_noopener (c # cs) = (prefix ''noopener'' (map lower (c # cs)) \<or> test_noopener cs)"

text \<open>The \<^verbatim>\<open>rel\<close> property reflects the attribute, and is empty when the attribute is absent.\<close>

definition rel :: "element \<Rightarrow> string" where
  "rel a = (case getAttribute ''rel'' a of None \<Rightarrow> [] | Some r \<Rightarrow> r)"

definition secure :: "element \<Rightarrow> element" where
  "secure a =
     (if \<not> test_noopener (rel a)
      then setAttribute ''rel'' ((if rel a \<noteq> [] then rel a @ '' '' else []) @ ''noopener'') a
      else a)"

definition blank_anchors :: selector where
  "blank_anchors = [[Tag ''a'', AttrEqCI ''target'' ''_blank'']]"

definition secureExternalLinks :: "page \<Rightarrow> page" where
  "secureExternalLinks d = fold (\<lambda>a. upd a secure) (qsa d blank_anchors) d"

subsection \<open>\<^verbatim>\<open>enhanceAccessibility\<close>\<close>

definition card_items :: selector where
  "card_items = [[Class ''exp-card''], [Class ''feature''], [Class ''skill-block''], [Class ''cert-card'']]"

text \<open>The elements \<open>enhanceAccessibility\<close> registers a listener on, by kind.\<close>

record listeners =
  skipLink :: "nat option"
  navLinks :: "nat list"
  cards :: "nat list"

definition enhanceAccessibility :: "page \<Rightarrow> listeners \<times> page" where
  "enhanceAccessibility d =
     (let cs = qsa d card_items
      in (\<lparr>skipLink = qs d [[Class ''skip-link'']],
           navLinks = qsa d [[Class ''nav__link'']],
           cards = cs\<rparr>,
          fold (\<lambda>el. upd el (setAttribute ''tabindex'' ''0'')) cs d))"



text \<open>
  The click listener of a nav link. \<^verbatim>\<open>getAttribute\<close> gives \<^verbatim>\<open>null\<close> for a missing
  attribute, and \<^verbatim>\<open>null.substring\<close> throws a \<^verbatim>\<open>TypeError\<close>.
\<close>

definition nav_link_click :: "css \<Rightarrow> nat \<Rightarrow> event \<Rightarrow> page \<Rightarrow> outcome \<times> event \<times> page" where
  "nav_link_click parse link e d =
     (let e1 = e\<lparr>defaultPrevented := True\<rparr>
      in case getAttribute ''href'' (nodes d ! link) of
           None \<Rightarrow> (Threw TypeError, e1, d)
         | Some href \<Rightarrow>
             (case qs_dyn parse d (''#'' @ drop 1 href) of
                Inl err \<Rightarrow> (Threw err, e1, d)
              | Inr None \<Rightarrow> (Done, e1, d)
              | Inr (Some tgt) \<Rightarrow>
                  (let d1 = fold (\<lambda>l. upd l (class_remove ''active'')) (qsa d [[Class ''nav__link'']]) d;
                       d2 = upd link (class_add ''active'') d1;
                       d3 = scrollIntoView tgt d2;
                       d4 = upd tgt (setAttribute ''tabindex'' ''-1'') d3;
                       d5 = focus tgt d4
                   in (Done, e1, d5\<lparr>timers := timers d5 @ [tgt]\<rparr>))))"

text \<open>The keydown listener of a card.\<close>

definition card_keydown :: "nat \<Rightarrow> event \<Rightarrow> page \<Rightarrow> page" where
  "card_keydown el e d = (if key e = ''Enter'' \<or> key e = '' '' then click el d else d)"

section \<open>Properties of a page\<close>


text \<open>The toggle \<open>t\<close> says \<^verbatim>\<open>aria-expanded="true"\<close> exactly when the list \<open>l\<close> is open.\<close>

definition aria_matches_open :: "nat \<Rightarrow> nat \<Rightarrow> page \<Rightarrow> bool" where
  "aria_matches_open t l d =
     ((getAttribute ''aria-expanded'' (nodes d ! t) = Some ''true'') =
      class_contains ''open'' (nodes d ! l))"

text \<open>The element \<open>x\<close> has been revealed and is no longer observed.\<close>

definition revealed :: "nat \<Rightarrow> page \<Rightarrow> bool" where
  "revealed x q =
     (get_style ''opacity'' (nodes q ! x) = Some ''1'' \<and>
      get_style ''transform'' (nodes q ! x) = Some ''translateY(0)'' \<and>
      x \<notin> set (observed q))"

section \<open>Example pages\<close>

definition elem :: "string \<Rightarrow> string option \<Rightarrow> string list \<Rightarrow> (string \<times> string) list \<Rightarrow> element" where
  "elem t i cs as =
     \<lparr>tag = t, parent = None, elem_id = i, classList = cs, attributes = as, style = []\<rparr>"

definition child :: "nat \<Rightarrow> element \<Rightarrow> element" where
  "child p e = e\<lparr>parent := Some p\<rparr>"

definition mk_page :: "element list \<Rightarrow> page" where
  "mk_page ns =
     \<lparr>nodes = ns, focus_target = None, scrolled = [], clicked = [], observed = [], timers = []\<rparr>"

definition click_on :: "nat \<Rightarrow> event" where
  "click_on i = \<lparr>target = i, key = [], defaultPrevented = False\<rparr>"

definition press :: "string \<Rightarrow> nat \<Rightarrow> event" where
  "press k i = \<lparr>target = i, key = k, defaultPrevented = False\<rparr>"

definition seen :: "nat \<Rightarrow> bool \<Rightarrow> entry" where
  "seen i b = \<lparr>io_target = i, isIntersecting = b\<rparr>"

text \<open>
  The part of the browser's parser the examples use: \<^verbatim>\<open>#\<close> followed by lower-case
  letters is an id selector; a bare \<^verbatim>\<open>#\<close>, and \<^verbatim>\<open>#\<close> followed by a digit, are not
  selectors, and \<^verbatim>\<open>querySelector\<close> throws on them. The examples pass it no other
  string.
\<close>

definition id_parse :: css where
  "id_parse s =
     (case s of
        [] \<Rightarrow> None
      | c # name \<Rightarrow>
          if c = CHR ''#'' \<and> name \<noteq> [] \<and> list_all (\<lambda>x. x \<in> set ''abcdefghijklmnopqrstuvwxyz'') name
          then Some (sel_matcher [[Id name]]) else None)"

text \<open>A header with a closed menu: toggle, list, and two links inside the list.\<close>

definition nav_page :: page where
  "nav_page = mk_page
     [elem ''button'' None [''nav__toggle''] [(''aria-expanded'', ''false'')],
      elem ''ul'' None [''nav__list''] [],
      child 1 (elem ''a'' None [''nav__link''] [(''href'', ''#hero'')]),
      child 1 (elem ''a'' None [''nav__link''] [(''href'', ''#about'')]),
      elem ''section'' (Some ''hero'') [''section''] [],
      elem ''section'' (Some ''about'') [''section''] []]"

text \<open>The same header, whose markup says \<^verbatim>\<open>aria-expanded="true"\<close> over a closed list.\<close>

definition stale_nav_page :: page where
  "stale_nav_page = mk_page
     [elem ''button'' None [''nav__toggle''] [(''aria-expanded'', ''true'')],
      elem ''ul'' None [''nav__list''] [],
      child 1 (elem ''a'' None [''nav__link''] [(''href'', ''#hero'')])]"


text \<open>A nav link without an \<^verbatim>\<open>href\<close> attribute.\<close>

definition no_href_page :: page where
  "no_href_page = mk_page
     [elem ''a'' None [''nav__link''] [],
      elem ''section'' (Some ''hero'') [] []]"

text \<open>Anchors that open a new tab, with and without \<^verbatim>\<open>rel\<close>, and one that does not.\<close>

definition links_page :: page where
  "links_page = mk_page
     [elem ''a'' None [] [(''target'', ''_blank''), (''rel'', ''nofollow'')],
      elem ''a'' None [] [(''target'', ''_blank''), (''rel'', ''NoOpener'')],
      elem ''a'' None [] [(''target'', ''_blank'')],
      elem ''a'' None [] [(''href'', ''#hero'')]]"

text \<open>A section, a card and a plain paragraph.\<close>

definition cards_page :: page where
  "cards_page = mk_page
     [elem ''section'' (Some ''experience'') [''section''] [],
      child 0 (elem ''article'' None [''exp-card''] []),
      elem ''p'' None [] []]"




section \<open>Auxiliary facts\<close>

subsection \<open>Updating elements and selecting them\<close>

lemmas example_defs = mk_page_def elem_def child_def click_on_def press_def

lemma length_nodes_upd: "length (nodes (upd i f d)) = length (nodes d)"
  by (simp add: upd_def)

lemma upd_more: "focus_target (upd i f d) = focus_target d" "scrolled (upd i f d) = scrolled d"
  "clicked (upd i f d) = clicked d" "observed (upd i f d) = observed d" "timers (upd i f d) = timers d"
  by (simp_all add: upd_def)

lemma fold_upd_more:
  "focus_target (fold (\<lambda>i. upd i f) js d) = focus_target d"
  "scrolled (fold (\<lambda>i. upd i f) js d) = scrolled d"
  "clicked (fold (\<lambda>i. upd i f) js d) = clicked d"
  "observed (fold (\<lambda>i. upd i f) js d) = observed d"
  "timers (fold (\<lambda>i. upd i f) js d) = timers d"
  by (induction js arbitrary: d) (simp_all add: upd_more)

lemma length_nodes_fold_upd: "length (nodes (fold (\<lambda>i. upd i f) js d)) = length (nodes d)"
  by (induction js arbitrary: d) (simp_all add: length_nodes_upd)

lemma nth_nodes_upd:
  "j < length (nodes d) \<Longrightarrow>
   nodes (upd i f d) ! j = (if j = i then f (nodes d ! j) else nodes d ! j)"
  by (simp add: upd_def nth_list_update)

lemma nth_nodes_fold_upd:
  "distinct js \<Longrightarrow> j < length (nodes d) \<Longrightarrow>
   nodes (fold (\<lambda>i. upd i f) js d) ! j = (if j \<in> set js then f (nodes d ! j) else nodes d ! j)"
proof (induction js arbitrary: d)
  case Nil
  then show ?case by simp
next
  case (Cons i js)
  have "nodes (fold (\<lambda>i. upd i f) js (upd i f d)) ! j =
        (if j \<in> set js then f (nodes (upd i f d) ! j) else nodes (upd i f d) ! j)"
    using Cons.prems by (intro Cons.IH) (simp_all add: length_nodes_upd)
  moreover have "nodes (upd i f d) ! j = (if j = i then f (nodes d ! j) else nodes d ! j)"
    using Cons.prems by (simp add: nth_nodes_upd)
  ultimately show ?case
    using Cons.prems by auto
qed

lemma distinct_select_all: "distinct (select_all m d)"
  by (simp add: select_all_def)

lemma set_select_all: "set (select_all m d) = {i. i < length (nodes d) \<and> m (nodes d) i}"
  by (auto simp: select_all_def)

lemma select_first_Some: "select_first m d = Some i \<Longrightarrow> i \<in> set (select_all m d)"
  by (auto simp: select_first_def split: list.splits)

subsection \<open>Link hardening\<close>

lemma test_noopener_append: "test_noopener ys \<Longrightarrow> test_noopener (xs @ ys)"
  by (induction xs) simp_all

lemma test_noopener_lit: "test_noopener ''noopener''"
  by code_simp

lemma test_noopener_suffix: "test_noopener (r @ '' noopener'')"
  using test_noopener_append [OF test_noopener_lit, of "r @ '' ''"] by simp

lemma getAttribute_setAttribute:
  "getAttribute k (setAttribute k' v e) = (if k = k' then Some v else getAttribute k e)"
  by (simp add: getAttribute_def setAttribute_def update_conv')

lemma test_noopener_secure: "test_noopener (rel (secure a))"
proof (cases "test_noopener (rel a)")
  case True
  then show ?thesis by (simp add: secure_def)
next
  case False
  then have "rel (secure a) = (if rel a \<noteq> [] then rel a @ '' '' else []) @ ''noopener''"
    by (simp add: secure_def rel_def getAttribute_setAttribute)
  then show ?thesis
    using test_noopener_suffix [of "rel a"] test_noopener_lit by (simp split: if_splits)
qed

lemma set_qsa: "set (qsa d s) = {i. i < length (nodes d) \<and> matches (nodes d ! i) s}"
  by (simp add: qsa_def set_select_all sel_matcher_def)

lemma distinct_qsa: "distinct (qsa d s)"
  by (simp add: qsa_def distinct_select_all)


lemma matches_secure: "matches (secure a) blank_anchors = matches a blank_anchors"
  by (simp add: secure_def blank_anchors_def matches_def setAttribute_def update_conv')

lemma secure_idem: "secure (secure a) = secure a"
  using test_noopener_secure [of a] by (simp add: secure_def [of "secure a"])

lemma length_secureExternalLinks: "length (nodes (secureExternalLinks d)) = length (nodes d)"
  by (simp add: secureExternalLinks_def length_nodes_fold_upd)

lemma nth_secureExternalLinks:
  "j < length (nodes d) \<Longrightarrow>
   nodes (secureExternalLinks d) ! j =
     (if matches (nodes d ! j) blank_anchors then secure (nodes d ! j) else nodes d ! j)"
  by (simp add: secureExternalLinks_def nth_nodes_fold_upd distinct_qsa set_qsa)

subsection \<open>Classes, attributes and the nav toggle\<close>

lemma class_contains_setAttribute [simp]:
  "class_contains c (setAttribute k v e) = class_contains c e"
  by (simp add: class_contains_def setAttribute_def)

lemma class_contains_remove [simp]:
  "class_contains c (class_remove c' e) = (c \<noteq> c' \<and> class_contains c e)"
  by (auto simp: class_contains_def class_remove_def)

lemma class_contains_add [simp]:
  "class_contains c (class_add c' e) = (c = c' \<or> class_contains c e)"
  by (auto simp: class_contains_def class_add_def)

lemma class_contains_toggle [simp]:
  "class_contains c (class_toggle c' e) =
     (if c = c' then \<not> class_contains c e else class_contains c e)"
  by (auto simp: class_toggle_def class_contains_def class_remove_def class_add_def)

lemma getAttribute_class_ops [simp]:
  "getAttribute k (class_remove c e) = getAttribute k e"
  "getAttribute k (class_add c e) = getAttribute k e"
  "getAttribute k (class_toggle c e) = getAttribute k e"
  by (simp_all add: getAttribute_def class_remove_def class_add_def class_toggle_def)

lemma close_nav_closed:
  assumes "t < length (nodes d)" "l < length (nodes d)"
  shows "\<not> class_contains ''open'' (nodes (close_nav t l d) ! l)"
    and "getAttribute ''aria-expanded'' (nodes (close_nav t l d) ! t) = Some ''false''"
  using assms
  by (simp_all add: close_nav_def nth_nodes_upd length_nodes_upd getAttribute_setAttribute)

lemma close_nav_others:
  "j < length (nodes d) \<Longrightarrow> j \<noteq> t \<Longrightarrow> j \<noteq> l \<Longrightarrow> nodes (close_nav t l d) ! j = nodes d ! j"
  by (simp add: close_nav_def nth_nodes_upd length_nodes_upd)

lemma close_nav_sync:
  "t < length (nodes d) \<Longrightarrow> l < length (nodes d) \<Longrightarrow> aria_matches_open t l (close_nav t l d)"
  by (simp add: aria_matches_open_def close_nav_closed)

lemma toggle_click_open:
  assumes "t < length (nodes d)" "l < length (nodes d)"
  shows "class_contains ''open'' (nodes (toggle_click t l d) ! l) =
           (\<not> class_contains ''open'' (nodes d ! l))"
    and "getAttribute ''aria-expanded'' (nodes (toggle_click t l d) ! t) =
           Some (if class_contains ''open'' (nodes d ! l) then ''false'' else ''true'')"
  using assms
  by (simp_all add: toggle_click_def Let_def nth_nodes_upd length_nodes_upd
      getAttribute_setAttribute)

lemma length_toggle_click: "length (nodes (toggle_click t l d)) = length (nodes d)"
  by (simp add: toggle_click_def Let_def length_nodes_upd)

lemma setupNavToggle_range:
  "setupNavToggle d = Some (t, l) \<Longrightarrow> t < length (nodes d) \<and> l < length (nodes d)"
  by (auto simp: setupNavToggle_def qs_def set_select_all
      split: option.splits dest!: select_first_Some)

subsection \<open>Cards\<close>

lemma nth_enhanceAccessibility:
  "j < length (nodes d) \<Longrightarrow>
   nodes (snd (enhanceAccessibility d)) ! j =
     (if matches (nodes d ! j) card_items then setAttribute ''tabindex'' ''0'' (nodes d ! j)
      else nodes d ! j)"
  by (simp add: enhanceAccessibility_def Let_def nth_nodes_fold_upd distinct_qsa set_qsa)

subsection \<open>Revealing items\<close>

lemma get_style_set_style:
  "get_style k (set_style k' v e) = (if k = k' then Some v else get_style k e)"
  by (simp add: get_style_def set_style_def update_conv')

lemma get_style_hide:
  "get_style ''opacity'' (hide e) = Some ''0''"
  "get_style ''transform'' (hide e) = Some ''translateY(20px)''"
  by (simp_all add: hide_def get_style_set_style)

lemma get_style_show_now:
  "get_style ''opacity'' (show_now e) = Some ''1''"
  "get_style ''transform'' (show_now e) = Some ''none''"
  by (simp_all add: show_now_def get_style_set_style)

lemma get_style_reveal:
  "get_style ''opacity'' (reveal e) = Some ''1''"
  "get_style ''transform'' (reveal e) = Some ''translateY(0)''"
  by (simp_all add: reveal_def get_style_set_style)

lemma fold_observe_nodes: "nodes (fold observe js d) = nodes d"
  by (induction js arbitrary: d) (simp_all add: observe_def)

lemma fold_observe_observed: "set (observed (fold observe js d)) = set (observed d) \<union> set js"
  by (induction js arbitrary: d) (auto simp: observe_def)

lemma nth_quickReveal:
  "j < length (nodes d) \<Longrightarrow>
   nodes (quickReveal has_io d) ! j =
     (if matches (nodes d ! j) reveal_items
      then (if has_io then hide (nodes d ! j) else show_now (nodes d ! j))
      else nodes d ! j)"
  by (simp add: quickReveal_def Let_def fold_observe_nodes nth_nodes_fold_upd distinct_qsa set_qsa)

lemma observed_quickReveal:
  "set (observed (quickReveal True d)) = set (observed d) \<union> set (qsa d reveal_items)"
  "observed (quickReveal False d) = observed d"
  by (simp_all add: quickReveal_def Let_def fold_observe_observed fold_upd_more)

lemma length_reveal_entry: "length (nodes (reveal_entry en q)) = length (nodes q)"
  by (simp add: reveal_entry_def unobserve_def length_nodes_upd)

lemma length_reveal_callback: "length (nodes (reveal_callback es p)) = length (nodes p)"
  unfolding reveal_callback_def
  by (induction es arbitrary: p) (simp_all add: length_reveal_entry)

lemma reveal_entry_nth:
  "x < length (nodes q) \<Longrightarrow>
   nodes (reveal_entry en q) ! x =
     (if isIntersecting en \<and> io_target en = x then reveal (nodes q ! x) else nodes q ! x)"
  by (auto simp: reveal_entry_def unobserve_def nth_nodes_upd)

lemma reveal_entry_observed:
  "observed (reveal_entry en q) =
     (if isIntersecting en then removeAll (io_target en) (observed q) else observed q)"
  by (simp add: reveal_entry_def unobserve_def upd_more)

lemma revealed_reveal_entry:
  "x < length (nodes q) \<Longrightarrow> revealed x q \<Longrightarrow> revealed x (reveal_entry en q)"
  by (simp add: revealed_def reveal_entry_nth reveal_entry_observed get_style_reveal)

lemma reveal_entry_reveals:
  "isIntersecting en \<Longrightarrow> io_target en < length (nodes q) \<Longrightarrow>
   revealed (io_target en) (reveal_entry en q)"
  by (simp add: revealed_def reveal_entry_nth reveal_entry_observed get_style_reveal)

lemma reveal_callback_snoc:
  "reveal_callback (es @ [en]) p = reveal_entry en (reveal_callback es p)"
  by (simp add: reveal_callback_def)

lemma reveal_callback_reveals:
  "en \<in> set es \<Longrightarrow> isIntersecting en \<Longrightarrow> io_target en < length (nodes p) \<Longrightarrow>
   revealed (io_target en) (reveal_callback es p)"
proof (induction es rule: rev_induct)
  case Nil
  then show ?case by simp
next
  case (snoc e' es)
  show ?case
  proof (cases "en = e'")
    case True
    with snoc.prems show ?thesis
      by (simp add: reveal_callback_snoc reveal_entry_reveals length_reveal_callback)
  next
    case False
    with snoc have "revealed (io_target en) (reveal_callback es p)"
      by simp
    with snoc.prems show ?thesis
      by (simp add: reveal_callback_snoc revealed_reveal_entry length_reveal_callback)
  qed
qed

lemma reveal_callback_untouched:
  "x < length (nodes p) \<Longrightarrow> list_all (\<lambda>en. \<not> (isIntersecting en \<and> io_target en = x)) es \<Longrightarrow>
   nodes (reveal_callback es p) ! x = nodes p ! x"
proof (induction es rule: rev_induct)
  case Nil
  then show ?case by (simp add: reveal_callback_def)
next
  case (snoc e' es)
  then show ?case
    by (auto simp: reveal_callback_snoc reveal_entry_nth length_reveal_callback)
qed

lemma set_style_triv: "map_of (style e) k = Some v \<Longrightarrow> set_style k v e = e"
  by (simp add: set_style_def update_triv)

lemma reveal_idem: "reveal (reveal e) = reveal e"
proof -
  have 1: "map_of (style (reveal e)) ''opacity'' = Some ''1''"
    by (simp add: reveal_def set_style_def update_conv')
  have 2: "map_of (style (reveal e)) ''transform'' = Some ''translateY(0)''"
    by (simp add: reveal_def set_style_def update_conv')
  have "reveal (reveal e) =
      set_style ''transform'' ''translateY(0)'' (set_style ''opacity'' ''1'' (reveal e))"
    by (rule reveal_def)
  also have "\<dots> = set_style ''transform'' ''translateY(0)'' (reveal e)"
    using 1 by (simp only: set_style_triv)
  also have "\<dots> = reveal e"
    using 2 by (simp only: set_style_triv)
  finally show ?thesis .
qed

lemma nth_reveal_callback:
  "x < length (nodes p) \<Longrightarrow>
   nodes (reveal_callback es p) ! x =
     (if list_ex (\<lambda>en. isIntersecting en \<and> io_target en = x) es
      then reveal (nodes p ! x) else nodes p ! x)"
proof (induction es rule: rev_induct)
  case Nil
  then show ?case by (simp add: reveal_callback_def)
next
  case (snoc en es)
  then show ?case
    by (auto simp: reveal_callback_snoc reveal_entry_nth length_reveal_callback reveal_idem)
qed

lemma observed_reveal_callback:
  "observed (reveal_callback es p) =
     filter (\<lambda>x. list_all (\<lambda>en. \<not> (isIntersecting en \<and> io_target en = x)) es) (observed p)"
proof (induction es rule: rev_induct)
  case Nil
  then show ?case by (simp add: reveal_callback_def)
next
  case (snoc en es)
  then show ?case
    by (auto simp: reveal_callback_snoc reveal_entry_observed removeAll_filter_not_eq
        intro: filter_cong)
qed

lemma reveal_callback_more:
  "focus_target (reveal_callback es p) = focus_target p"
  "scrolled (reveal_callback es p) = scrolled p"
  "clicked (reveal_callback es p) = clicked p"
  "timers (reveal_callback es p) = timers p"
  unfolding reveal_callback_def
  by (induction es arbitrary: p) (simp_all add: reveal_entry_def unobserve_def upd_more)

lemma reveal_callback_idle:
  "list_all (\<lambda>en. \<not> isIntersecting en) es \<Longrightarrow> reveal_callback es p = p"
  unfolding reveal_callback_def
  by (induction es arbitrary: p) (simp_all add: reveal_entry_def)

lemma fold_observe_more:
  "focus_target (fold observe js d) = focus_target d"
  "scrolled (fold observe js d) = scrolled d"
  "clicked (fold observe js d) = clicked d"
  "timers (fold observe js d) = timers d"
  by (induction js arbitrary: d) (simp_all add: observe_def)

lemma quickReveal_more:
  "focus_target (quickReveal b d) = focus_target d"
  "scrolled (quickReveal b d) = scrolled d"
  "clicked (quickReveal b d) = clicked d"
  "timers (quickReveal b d) = timers d"
  "length (nodes (quickReveal b d)) = length (nodes d)"
  by (simp_all add: quickReveal_def Let_def fold_observe_more fold_upd_more fold_observe_nodes
      length_nodes_fold_upd)

subsection \<open>Active links\<close>















lemma qs_dyn_Some: "qs_dyn parse d s = Inr (Some a) \<Longrightarrow> a < length (nodes d)"
  by (auto simp: qs_dyn_def set_select_all split: option.splits dest!: select_first_Some)

lemma nodes_effects [simp]:
  "nodes (focus i d) = nodes d"
  "nodes (scrollIntoView i d) = nodes d"
  "nodes (click i d) = nodes d"
  by (simp_all add: focus_def scrollIntoView_def click_def)





section \<open>The properties of the script\<close>

subsection \<open>The active nav link\<close>




subsection \<open>The click on the nav toggle\<close>

text \<open>
  Claim C2. With the toggle \<open>t\<close> and the list \<open>l\<close> on the page, a click on the toggle
  adds \<^verbatim>\<open>open\<close> to the list's classes when it is absent and removes it when it is
  present, and sets the toggle's \<^verbatim>\<open>aria-expanded\<close> to the resulting state,
  \<^verbatim>\<open>'true'\<close> or \<^verbatim>\<open>'false'\<close>; two clicks in a row leave the list open exactly when it
  was open before.
\<close>

theorem toggle_click_toggles:
  "t < length (nodes d) \<Longrightarrow> l < length (nodes d) \<Longrightarrow>
   class_contains ''open'' (nodes (toggle_click t l d) ! l) =
     (\<not> class_contains ''open'' (nodes d ! l)) \<and>
   getAttribute ''aria-expanded'' (nodes (toggle_click t l d) ! t) =
     Some (if class_contains ''open'' (nodes (toggle_click t l d) ! l) then ''true'' else ''false'') \<and>
   class_contains ''open'' (nodes (toggle_click t l (toggle_click t l d)) ! l) =
     class_contains ''open'' (nodes d ! l)"
  by (simp add: toggle_click_open length_toggle_click)

theorem toggle_click_toggles_witness:
  "setupNavToggle nav_page = Some (0, 1) \<and>
   \<not> class_contains ''open'' (nodes nav_page ! 1) \<and>
   class_contains ''open'' (nodes (toggle_click 0 1 nav_page) ! 1) \<and>
   getAttribute ''aria-expanded'' (nodes (toggle_click 0 1 nav_page) ! 0) = Some ''true'' \<and>
   \<not> class_contains ''open'' (nodes (toggle_click 0 1 (toggle_click 0 1 nav_page)) ! 1)"
proof -
  have s: "setupNavToggle nav_page = Some (0, 1)"
    by code_simp
  have c: "\<not> class_contains ''open'' (nodes nav_page ! 1)"
    by code_simp
  have r: "0 < length (nodes nav_page)" "1 < length (nodes nav_page)"
    by (simp_all add: nav_page_def mk_page_def)
  show ?thesis
    using toggle_click_toggles [OF r] s c by simp
qed

subsection \<open>Missing elements\<close>

text \<open>
  Claim C3 says that a listener does nothing, and never throws, when what it looks for
  is missing, a nav link without an \<^verbatim>\<open>href\<close> included. \<open>enhanceAccessibility\<close>
  registers its click listener on such a link all the same, and a click on it ends in
  a \<^verbatim>\<open>TypeError\<close>: \<^verbatim>\<open>getAttribute('href')\<close> is \<^verbatim>\<open>null\<close>, on which \<^verbatim>\<open>substring\<close> is
  called without the check the other lookups of the script are given.
\<close>

theorem nav_link_without_href_throws:
  "navLinks (fst (enhanceAccessibility no_href_page)) = [0] \<and>
   getAttribute ''href'' (nodes no_href_page ! 0) = None \<and>
   nav_link_click id_parse 0 (click_on 0) no_href_page =
     (Threw TypeError, (click_on 0)\<lparr>defaultPrevented := True\<rparr>, no_href_page)"
  by code_simp

subsection \<open>Hardening external links\<close>

text \<open>
  Claim C4. After \<open>secureExternalLinks\<close> has run, every anchor matching
  \<^verbatim>\<open>a[target="_blank"]\<close> has a \<^verbatim>\<open>rel\<close> that \<^verbatim>\<open>/noopener/i\<close> matches. An anchor whose
  \<^verbatim>\<open>rel\<close> matched already is left as it was; for any other the only change is that its
  \<^verbatim>\<open>rel\<close> becomes the old value followed by \<^verbatim>\<open>' noopener'\<close>, or \<^verbatim>\<open>'noopener'\<close> when
  the old value was empty.
\<close>

theorem secureExternalLinks_rel:
  "i < length (nodes d) \<Longrightarrow>
   length (nodes (secureExternalLinks d)) = length (nodes d) \<and>
   (matches (nodes (secureExternalLinks d) ! i) blank_anchors \<longrightarrow>
      test_noopener (rel (nodes (secureExternalLinks d) ! i))) \<and>
   (matches (nodes d ! i) blank_anchors \<and> test_noopener (rel (nodes d ! i)) \<longrightarrow>
      nodes (secureExternalLinks d) ! i = nodes d ! i) \<and>
   (matches (nodes d ! i) blank_anchors \<and> \<not> test_noopener (rel (nodes d ! i)) \<longrightarrow>
      nodes (secureExternalLinks d) ! i =
        setAttribute ''rel''
          (if rel (nodes d ! i) = [] then ''noopener'' else rel (nodes d ! i) @ '' noopener'')
          (nodes d ! i))"
proof -
  assume i: "i < length (nodes d)"
  let ?a = "nodes d ! i" and ?a' = "nodes (secureExternalLinks d) ! i"
  have a': "?a' = (if matches ?a blank_anchors then secure ?a else ?a)"
    using i by (rule nth_secureExternalLinks)
  have m: "matches ?a' blank_anchors = matches ?a blank_anchors"
    by (simp add: a' matches_secure)
  have 1: "matches ?a' blank_anchors \<longrightarrow> test_noopener (rel ?a')"
    using m by (simp add: a' test_noopener_secure)
  have 2: "matches ?a blank_anchors \<and> test_noopener (rel ?a) \<longrightarrow> ?a' = ?a"
    by (simp add: a' secure_def)
  have 3: "matches ?a blank_anchors \<and> \<not> test_noopener (rel ?a) \<longrightarrow>
      ?a' = setAttribute ''rel'' (if rel ?a = [] then ''noopener'' else rel ?a @ '' noopener'') ?a"
    by (simp add: a' secure_def)
  show ?thesis
    using 1 2 3 length_secureExternalLinks by blast
qed

theorem secureExternalLinks_rel_witness:
  "0 < length (nodes links_page) \<and>
   matches (nodes links_page ! 0) blank_anchors \<and>
   \<not> test_noopener (rel (nodes links_page ! 0)) \<and>
   rel (nodes (secureExternalLinks links_page) ! 0) = ''nofollow noopener''"
  using secureExternalLinks_rel [of 0 links_page]
  by (simp add: links_page_def example_defs blank_anchors_def matches_def rel_def
      getAttribute_def setAttribute_def lower_def)

subsection \<open>Revealing items\<close>

text \<open>
  Claim C5. With \<^verbatim>\<open>IntersectionObserver\<close> available, \<open>quickReveal\<close> leaves every reveal
  item hidden, with opacity \<^verbatim>\<open>'0'\<close> and transform \<^verbatim>\<open>'translateY(20px)'\<close>, and observes
  exactly the items besides what was observed before; without it, every item gets
  opacity \<^verbatim>\<open>'1'\<close> and transform \<^verbatim>\<open>'none'\<close> and nothing is observed. Either way no other
  element is touched. The observer's callback reveals the target of every intersecting
  entry, with opacity \<^verbatim>\<open>'1'\<close> and transform \<^verbatim>\<open>'translateY(0)'\<close>, and stops observing
  it, so that the browser reports it no more. An element that no intersecting entry
  names is left as it is and, if it was observed, stays observed, so that it can still
  be revealed later; a batch without an intersecting entry changes nothing.
\<close>

theorem quickReveal_behaviour:
  "(it \<in> set (qsa d reveal_items) \<longrightarrow>
      get_style ''opacity'' (nodes (quickReveal True d) ! it) = Some ''0'' \<and>
      get_style ''transform'' (nodes (quickReveal True d) ! it) = Some ''translateY(20px)'' \<and>
      it \<in> set (observed (quickReveal True d)) \<and>
      get_style ''opacity'' (nodes (quickReveal False d) ! it) = Some ''1'' \<and>
      get_style ''transform'' (nodes (quickReveal False d) ! it) = Some ''none'' \<and>
      nodes (quickReveal True d) ! it = hide (nodes d ! it) \<and>
      nodes (quickReveal False d) ! it = show_now (nodes d ! it)) \<and>
   observed (quickReveal False d) = observed d \<and>
   set (observed (quickReveal True d)) = set (observed d) \<union> set (qsa d reveal_items) \<and>
   (it < length (nodes d) \<and> it \<notin> set (qsa d reveal_items) \<longrightarrow>
      nodes (quickReveal has_io d) ! it = nodes d ! it) \<and>
   length (nodes (quickReveal has_io d)) = length (nodes d) \<and>
   (en \<in> set entries \<and> isIntersecting en \<and> io_target en < length (nodes p) \<longrightarrow>
      get_style ''opacity'' (nodes (reveal_callback entries p) ! io_target en) = Some ''1'' \<and>
      get_style ''transform'' (nodes (reveal_callback entries p) ! io_target en) =
        Some ''translateY(0)'' \<and>
      io_target en \<notin> set (observed (reveal_callback entries p))) \<and>
   (it < length (nodes p) \<and>
    list_all (\<lambda>en. \<not> (isIntersecting en \<and> io_target en = it)) entries \<longrightarrow>
      nodes (reveal_callback entries p) ! it = nodes p ! it) \<and>
   (it < length (nodes p) \<and>
    list_ex (\<lambda>en. isIntersecting en \<and> io_target en = it) entries \<longrightarrow>
      nodes (reveal_callback entries p) ! it = reveal (nodes p ! it)) \<and>
   (it \<in> set (observed p) \<and>
    list_all (\<lambda>en. \<not> (isIntersecting en \<and> io_target en = it)) entries \<longrightarrow>
      it \<in> set (observed (reveal_callback entries p))) \<and>
   observed (reveal_callback entries p) =
     filter (\<lambda>x. list_all (\<lambda>en. \<not> (isIntersecting en \<and> io_target en = x)) entries) (observed p) \<and>
   (list_all (\<lambda>en. \<not> isIntersecting en) entries \<longrightarrow> reveal_callback entries p = p) \<and>
   length (nodes (reveal_callback entries p)) = length (nodes p) \<and>
   focus_target (reveal_callback entries p) = focus_target p \<and>
   scrolled (reveal_callback entries p) = scrolled p \<and>
   clicked (reveal_callback entries p) = clicked p \<and>
   timers (reveal_callback entries p) = timers p"
proof -
  have 1: "it \<in> set (qsa d reveal_items) \<longrightarrow>
      get_style ''opacity'' (nodes (quickReveal True d) ! it) = Some ''0'' \<and>
      get_style ''transform'' (nodes (quickReveal True d) ! it) = Some ''translateY(20px)'' \<and>
      it \<in> set (observed (quickReveal True d)) \<and>
      get_style ''opacity'' (nodes (quickReveal False d) ! it) = Some ''1'' \<and>
      get_style ''transform'' (nodes (quickReveal False d) ! it) = Some ''none'' \<and>
      nodes (quickReveal True d) ! it = hide (nodes d ! it) \<and>
      nodes (quickReveal False d) ! it = show_now (nodes d ! it)"
    by (simp add: set_qsa nth_quickReveal observed_quickReveal get_style_hide get_style_show_now)
  have 2: "it < length (nodes d) \<and> it \<notin> set (qsa d reveal_items) \<longrightarrow>
      nodes (quickReveal has_io d) ! it = nodes d ! it"
    by (simp add: set_qsa nth_quickReveal)
  have 3: "en \<in> set entries \<and> isIntersecting en \<and> io_target en < length (nodes p) \<longrightarrow>
      get_style ''opacity'' (nodes (reveal_callback entries p) ! io_target en) = Some ''1'' \<and>
      get_style ''transform'' (nodes (reveal_callback entries p) ! io_target en) =
        Some ''translateY(0)'' \<and>
      io_target en \<notin> set (observed (reveal_callback entries p))"
    using reveal_callback_reveals [of en entries p] by (simp add: revealed_def)
  have 4: "it < length (nodes p) \<and>
    list_all (\<lambda>en. \<not> (isIntersecting en \<and> io_target en = it)) entries \<longrightarrow>
      nodes (reveal_callback entries p) ! it = nodes p ! it"
    using reveal_callback_untouched [of it p entries] by simp
  have 5: "it < length (nodes p) \<and>
    list_ex (\<lambda>en. isIntersecting en \<and> io_target en = it) entries \<longrightarrow>
      nodes (reveal_callback entries p) ! it = reveal (nodes p ! it)"
    by (simp add: nth_reveal_callback)
  have 6: "observed (reveal_callback entries p) =
     filter (\<lambda>x. list_all (\<lambda>en. \<not> (isIntersecting en \<and> io_target en = x)) entries) (observed p)"
    by (rule observed_reveal_callback)
  have 7: "it \<in> set (observed p) \<and>
    list_all (\<lambda>en. \<not> (isIntersecting en \<and> io_target en = it)) entries \<longrightarrow>
      it \<in> set (observed (reveal_callback entries p))"
    by (simp add: 6)
  have 8: "list_all (\<lambda>en. \<not> isIntersecting en) entries \<longrightarrow> reveal_callback entries p = p"
    by (simp add: reveal_callback_idle)
  show ?thesis
    using 1 2 3 4 5 6 7 8 observed_quickReveal [of d] quickReveal_more(5) [of has_io d]
      length_reveal_callback [of entries p] reveal_callback_more [of entries p]
    by (intro conjI) assumption+
qed

theorem quickReveal_behaviour_witness:
  "qsa cards_page reveal_items = [0, 1] \<and>
   get_style ''opacity'' (nodes (quickReveal True cards_page) ! 1) = Some ''0'' \<and>
   get_style ''transform'' (nodes (quickReveal True cards_page) ! 1) = Some ''translateY(20px)'' \<and>
   get_style ''opacity'' (nodes (quickReveal False cards_page) ! 1) = Some ''1'' \<and>
   get_style ''transform'' (nodes (quickReveal False cards_page) ! 1) = Some ''none'' \<and>
   observed (quickReveal True cards_page) = [0, 1] \<and>
   get_style ''opacity''
     (nodes (reveal_callback [seen 1 True, seen 0 False] (quickReveal True cards_page)) ! 1) =
     Some ''1'' \<and>
   get_style ''transform''
     (nodes (reveal_callback [seen 1 True, seen 0 False] (quickReveal True cards_page)) ! 1) =
     Some ''translateY(0)'' \<and>
   1 \<notin> set (observed (reveal_callback [seen 1 True, seen 0 False] (quickReveal True cards_page))) \<and>
   nodes (reveal_callback [seen 1 True, seen 0 False] (quickReveal True cards_page)) ! 0 =
     nodes (quickReveal True cards_page) ! 0 \<and>
   observed (reveal_callback [seen 1 True, seen 0 False] (quickReveal True cards_page)) = [0] \<and>
   reveal_callback [seen 0 False] (quickReveal True cards_page) = quickReveal True cards_page"
proof -
  let ?p = "quickReveal True cards_page"
  let ?es = "[seen 1 True, seen 0 False]"
  note t1 = quickReveal_behaviour [where it = 1 and d = cards_page and has_io = True
        and en = "seen 1 True" and entries = ?es and p = ?p]
  note t0 = quickReveal_behaviour [where it = 0 and d = cards_page and has_io = True
        and en = "seen 0 False" and entries = "[seen 0 False]" and p = ?p]
  note t2 = quickReveal_behaviour [where it = 0 and d = cards_page and has_io = True
        and en = "seen 1 True" and entries = ?es and p = ?p]
  have q: "qsa cards_page reveal_items = [0, 1]"
    by code_simp
  have o: "observed ?p = [0, 1]"
    by code_simp
  have l: "length (nodes ?p) = 3"
    by code_simp
  have e: "io_target (seen 1 True) = 1" "isIntersecting (seen 1 True)"
      "\<not> isIntersecting (seen 0 False)" "io_target (seen 0 False) = 0"
    by (simp_all add: seen_def)
  have m: "1 \<in> set (qsa cards_page reveal_items)"
    by (simp add: q)
  have A: "get_style ''opacity'' (nodes ?p ! 1) = Some ''0'' \<and>
      get_style ''transform'' (nodes ?p ! 1) = Some ''translateY(20px)'' \<and>
      get_style ''opacity'' (nodes (quickReveal False cards_page) ! 1) = Some ''1'' \<and>
      get_style ''transform'' (nodes (quickReveal False cards_page) ! 1) = Some ''none''"
    using t1 [THEN conjunct1, THEN mp, OF m] by blast
  have r: "seen 1 True \<in> set ?es \<and> isIntersecting (seen 1 True) \<and>
      io_target (seen 1 True) < length (nodes ?p)"
    by (simp add: seen_def l)
  have B: "get_style ''opacity'' (nodes (reveal_callback ?es ?p) ! 1) = Some ''1'' \<and>
      get_style ''transform'' (nodes (reveal_callback ?es ?p) ! 1) = Some ''translateY(0)'' \<and>
      1 \<notin> set (observed (reveal_callback ?es ?p))"
    using t1 [THEN conjunct2, THEN conjunct2, THEN conjunct2, THEN conjunct2, THEN conjunct2, THEN conjunct1, THEN mp, OF r] by (simp add: seen_def)
  have u: "0 < length (nodes ?p) \<and>
      list_all (\<lambda>en. \<not> (isIntersecting en \<and> io_target en = 0)) ?es"
    by (simp add: seen_def l)
  have C: "nodes (reveal_callback ?es ?p) ! 0 = nodes ?p ! 0"
    using t2 [THEN conjunct2, THEN conjunct2, THEN conjunct2, THEN conjunct2, THEN conjunct2, THEN conjunct2, THEN conjunct1, THEN mp, OF u] .
  have D: "observed (reveal_callback ?es ?p) = [0]"
    using t1 [THEN conjunct2, THEN conjunct2, THEN conjunct2, THEN conjunct2, THEN conjunct2, THEN conjunct2, THEN conjunct2, THEN conjunct2, THEN conjunct2, THEN conjunct1] by (simp add: o seen_def)
  have i: "list_all (\<lambda>en. \<not> isIntersecting en) [seen 0 False]"
    by (simp add: seen_def)
  have E: "reveal_callback [seen 0 False] ?p = ?p"
    using t0 [THEN conjunct2, THEN conjunct2, THEN conjunct2, THEN conjunct2, THEN conjunct2, THEN conjunct2, THEN conjunct2, THEN conjunct2, THEN conjunct2, THEN conjunct2, THEN conjunct1, THEN mp, OF i] .
  show ?thesis
    using q o A B C D E by simp
qed

subsection \<open>Keyboard activation of cards\<close>

text \<open>
  Claim C6. The cards \<open>enhanceAccessibility\<close> registers a keydown listener on are the
  elements matching \<^verbatim>\<open>.exp-card, .feature, .skill-block, .cert-card\<close>, and each of them
  has \<^verbatim>\<open>tabindex="0"\<close> afterwards. The listener calls the card's \<^verbatim>\<open>click()\<close> for the
  keys \<^verbatim>\<open>'Enter'\<close> and \<^verbatim>\<open>' '\<close>, and leaves the page as it is for any other key.
\<close>

theorem card_keyboard_activation:
  "(c \<in> set (cards (fst (enhanceAccessibility d))) \<longleftrightarrow>
      c < length (nodes d) \<and> matches (nodes d ! c) card_items) \<and>
   (c \<in> set (cards (fst (enhanceAccessibility d))) \<longrightarrow>
      getAttribute ''tabindex'' (nodes (snd (enhanceAccessibility d)) ! c) = Some ''0'') \<and>
   (key e = ''Enter'' \<or> key e = '' '' \<longrightarrow>
      card_keydown c e p = p\<lparr>clicked := clicked p @ [c]\<rparr>) \<and>
   (key e \<noteq> ''Enter'' \<and> key e \<noteq> '' '' \<longrightarrow> card_keydown c e p = p)"
proof -
  have 1: "c \<in> set (cards (fst (enhanceAccessibility d))) \<longleftrightarrow>
      c < length (nodes d) \<and> matches (nodes d ! c) card_items"
    by (simp add: enhanceAccessibility_def Let_def set_qsa)
  have 2: "c \<in> set (cards (fst (enhanceAccessibility d))) \<longrightarrow>
      getAttribute ''tabindex'' (nodes (snd (enhanceAccessibility d)) ! c) = Some ''0''"
    using 1 by (simp add: nth_enhanceAccessibility getAttribute_setAttribute)
  have 3: "key e = ''Enter'' \<or> key e = '' '' \<longrightarrow>
      card_keydown c e p = p\<lparr>clicked := clicked p @ [c]\<rparr>"
    by (simp add: card_keydown_def click_def)
  have 4: "key e \<noteq> ''Enter'' \<and> key e \<noteq> '' '' \<longrightarrow> card_keydown c e p = p"
    by (simp add: card_keydown_def)
  show ?thesis
    using 1 2 3 4 by blast
qed

theorem card_keyboard_activation_witness:
  "cards (fst (enhanceAccessibility cards_page)) = [1] \<and>
   getAttribute ''tabindex'' (nodes (snd (enhanceAccessibility cards_page)) ! 1) = Some ''0'' \<and>
   clicked (card_keydown 1 (press ''Enter'' 1) (snd (enhanceAccessibility cards_page))) = [1] \<and>
   clicked (card_keydown 1 (press '' '' 1) (snd (enhanceAccessibility cards_page))) = [1] \<and>
   card_keydown 1 (press ''Tab'' 1) (snd (enhanceAccessibility cards_page)) =
     snd (enhanceAccessibility cards_page)"
proof -
  let ?p = "snd (enhanceAccessibility cards_page)"
  have c: "cards (fst (enhanceAccessibility cards_page)) = [1]"
    by code_simp
  have k: "clicked ?p = []"
    by (simp add: enhanceAccessibility_def Let_def fold_upd_more cards_page_def mk_page_def)
  show ?thesis
    using c k card_keyboard_activation [of 1 cards_page "press ''Enter'' 1" ?p]
      card_keyboard_activation [of 1 cards_page "press '' '' 1" ?p]
      card_keyboard_activation [of 1 cards_page "press ''Tab'' 1" ?p]
    by (simp add: press_def)
qed

subsection \<open>The skip link\<close>




subsection \<open>The toggle's \<^verbatim>\<open>aria-expanded\<close>\<close>

text \<open>
  Claim C8, as amended. The click on the toggle always leaves \<^verbatim>\<open>aria-expanded\<close> equal
  to \<^verbatim>\<open>'true'\<close> exactly when the list has the class \<^verbatim>\<open>open\<close>. Each of the three other
  listeners (click on a nav link inside the list, click outside toggle and list, Escape
  with the list open) leaves it so when its condition holds, and changes nothing
  otherwise; so after any of them the equivalence holds whenever it held before.
\<close>

theorem aria_expanded_tracks_open:
  "t < length (nodes d) \<Longrightarrow> l < length (nodes d) \<Longrightarrow>
   aria_matches_open t l (toggle_click t l d) \<and>
   (class_contains ''nav__link'' (nodes d ! target e) \<longrightarrow>
      aria_matches_open t l (list_click t l e d)) \<and>
   (\<not> class_contains ''nav__link'' (nodes d ! target e) \<longrightarrow> list_click t l e d = d) \<and>
   (\<not> node_contains d t (target e) \<and> \<not> node_contains d l (target e) \<longrightarrow>
      aria_matches_open t l (document_click t l e d)) \<and>
   (node_contains d t (target e) \<or> node_contains d l (target e) \<longrightarrow>
      document_click t l e d = d) \<and>
   (key e = ''Escape'' \<and> class_contains ''open'' (nodes d ! l) \<longrightarrow>
      aria_matches_open t l (document_keydown t l e d)) \<and>
   (key e \<noteq> ''Escape'' \<or> \<not> class_contains ''open'' (nodes d ! l) \<longrightarrow>
      document_keydown t l e d = d) \<and>
   (aria_matches_open t l d \<longrightarrow>
      aria_matches_open t l (list_click t l e d) \<and>
      aria_matches_open t l (document_click t l e d) \<and>
      aria_matches_open t l (document_keydown t l e d))"
proof -
  assume r: "t < length (nodes d)" "l < length (nodes d)"
  have c: "aria_matches_open t l (close_nav t l d)"
    using r by (rule close_nav_sync)
  have f: "aria_matches_open t l (focus t (close_nav t l d))"
    using c by (simp add: aria_matches_open_def focus_def)
  have tg: "aria_matches_open t l (toggle_click t l d)"
    using r by (simp add: aria_matches_open_def toggle_click_open)
  show ?thesis
    using c f tg by (simp add: list_click_def document_click_def document_keydown_def)
qed

theorem aria_expanded_tracks_open_witness:
  "aria_matches_open 0 1 nav_page \<and>
   aria_matches_open 0 1 (toggle_click 0 1 nav_page) \<and>
   aria_matches_open 0 1 (list_click 0 1 (click_on 2) (toggle_click 0 1 nav_page)) \<and>
   aria_matches_open 0 1 (document_click 0 1 (click_on 4) (toggle_click 0 1 nav_page)) \<and>
   aria_matches_open 0 1 (document_keydown 0 1 (press ''Escape'' 4) (toggle_click 0 1 nav_page))"
proof -
  have r: "0 < length (nodes (toggle_click 0 1 nav_page))"
      "1 < length (nodes (toggle_click 0 1 nav_page))"
    by (simp_all add: length_toggle_click nav_page_def mk_page_def)
  have r0: "0 < length (nodes nav_page)" "1 < length (nodes nav_page)"
    by (simp_all add: nav_page_def mk_page_def)
  have a: "aria_matches_open 0 1 nav_page"
    by code_simp
  have b: "aria_matches_open 0 1 (toggle_click 0 1 nav_page)"
    using aria_expanded_tracks_open [OF r0] by simp
  show ?thesis
    using a b aria_expanded_tracks_open [OF r, of "click_on 2"]
      aria_expanded_tracks_open [OF r, of "click_on 4"]
      aria_expanded_tracks_open [OF r, of "press ''Escape'' 4"]
    by simp
qed

text \<open>
  As claim C8 is stated, without a condition on the page before, it fails: on a page
  whose markup says \<^verbatim>\<open>aria-expanded="true"\<close> over a closed list, the Escape listener
  completes without a change, and the attribute is \<^verbatim>\<open>'true'\<close> while the list is not
  open.
\<close>

theorem aria_expanded_counterexample:
  "setupNavToggle stale_nav_page = Some (0, 1) \<and>
   document_keydown 0 1 (press ''Escape'' 0) stale_nav_page = stale_nav_page \<and>
   getAttribute ''aria-expanded'' (nodes stale_nav_page ! 0) = Some ''true'' \<and>
   \<not> class_contains ''open'' (nodes stale_nav_page ! 1) \<and>
   \<not> aria_matches_open 0 1 (document_keydown 0 1 (press ''Escape'' 0) stale_nav_page)"
  by code_simp

subsection \<open>Hardening links twice\<close>

text \<open>
  Claim C9. \<open>secureExternalLinks\<close> is idempotent: a second run leaves the page, and so
  every \<^verbatim>\<open>rel\<close> attribute, as the first run left it.
\<close>

theorem secureExternalLinks_idempotent:
  "secureExternalLinks (secureExternalLinks d) = secureExternalLinks d"
proof (rule page.equality)
  let ?d' = "secureExternalLinks d"
  have len: "length (nodes ?d') = length (nodes d)"
    by (rule length_secureExternalLinks)
  show "nodes (secureExternalLinks ?d') = nodes ?d'"
  proof (rule nth_equalityI)
    show "length (nodes (secureExternalLinks ?d')) = length (nodes ?d')"
      by (rule length_secureExternalLinks)
  next
    fix j assume "j < length (nodes (secureExternalLinks ?d'))"
    then have j: "j < length (nodes ?d')"
      by (simp add: length_secureExternalLinks)
    then have "nodes (secureExternalLinks ?d') ! j =
        (if matches (nodes ?d' ! j) blank_anchors then secure (nodes ?d' ! j) else nodes ?d' ! j)"
      by (rule nth_secureExternalLinks)
    moreover have "nodes ?d' ! j =
        (if matches (nodes d ! j) blank_anchors then secure (nodes d ! j) else nodes d ! j)"
      using j len by (simp add: nth_secureExternalLinks)
    ultimately show "nodes (secureExternalLinks ?d') ! j = nodes ?d' ! j"
      by (simp add: secure_idem)
  qed
qed (simp_all add: secureExternalLinks_def fold_upd_more)

theorem secureExternalLinks_idempotent_witness:
  "map rel (nodes (secureExternalLinks (secureExternalLinks links_page))) =
     [''nofollow noopener'', ''NoOpener'', ''noopener'', []]"
proof -
  have "map rel (nodes (secureExternalLinks links_page)) =
     [''nofollow noopener'', ''NoOpener'', ''noopener'', []]"
    by code_simp
  then show ?thesis
    using secureExternalLinks_idempotent [of links_page] by simp
qed

subsection \<open>The Escape key\<close>

text \<open>
  Claim C10. The keydown listener of the document leaves the page as it is when the
  list does not have the class \<^verbatim>\<open>open\<close> (and for every key other than Escape). For
  Escape with the list open it removes the class, sets the toggle's
  \<^verbatim>\<open>aria-expanded\<close> to \<^verbatim>\<open>'false'\<close>, calls \<^verbatim>\<open>focus()\<close> on the toggle, and leaves every
  other element as it is.
\<close>

theorem escape_keydown_frame:
  "t < length (nodes d) \<Longrightarrow> l < length (nodes d) \<Longrightarrow>
   (\<not> class_contains ''open'' (nodes d ! l) \<longrightarrow> document_keydown t l e d = d) \<and>
   (key e \<noteq> ''Escape'' \<longrightarrow> document_keydown t l e d = d) \<and>
   (key e = ''Escape'' \<and> class_contains ''open'' (nodes d ! l) \<longrightarrow>
      \<not> class_contains ''open'' (nodes (document_keydown t l e d) ! l) \<and>
      getAttribute ''aria-expanded'' (nodes (document_keydown t l e d) ! t) = Some ''false'' \<and>
      focus_target (document_keydown t l e d) = Some t \<and>
      (\<forall>j < length (nodes d). j \<noteq> t \<and> j \<noteq> l \<longrightarrow>
         nodes (document_keydown t l e d) ! j = nodes d ! j))"
proof -
  assume r: "t < length (nodes d)" "l < length (nodes d)"
  have "nodes (focus t (close_nav t l d)) = nodes (close_nav t l d)"
    by (simp add: focus_def)
  moreover have "focus_target (focus t (close_nav t l d)) = Some t"
    by (simp add: focus_def)
  ultimately show ?thesis
    using close_nav_closed [OF r] close_nav_others [of _ d t l]
    by (simp add: document_keydown_def)
qed

theorem escape_keydown_frame_witness:
  "document_keydown 0 1 (press ''Escape'' 4) nav_page = nav_page \<and>
   class_contains ''open'' (nodes (toggle_click 0 1 nav_page) ! 1) \<and>
   \<not> class_contains ''open''
      (nodes (document_keydown 0 1 (press ''Escape'' 4) (toggle_click 0 1 nav_page)) ! 1) \<and>
   getAttribute ''aria-expanded''
      (nodes (document_keydown 0 1 (press ''Escape'' 4) (toggle_click 0 1 nav_page)) ! 0) =
     Some ''false'' \<and>
   focus_target (document_keydown 0 1 (press ''Escape'' 4) (toggle_click 0 1 nav_page)) = Some 0"
proof -
  have r0: "0 < length (nodes nav_page)" "1 < length (nodes nav_page)"
    by (simp_all add: nav_page_def mk_page_def)
  have r: "0 < length (nodes (toggle_click 0 1 nav_page))"
      "1 < length (nodes (toggle_click 0 1 nav_page))"
    using r0 by (simp_all add: length_toggle_click)
  have c: "\<not> class_contains ''open'' (nodes nav_page ! 1)"
    by code_simp
  have o: "class_contains ''open'' (nodes (toggle_click 0 1 nav_page) ! 1)"
    using c r0 by (simp add: toggle_click_open)
  have k: "key (press ''Escape'' 4) = ''Escape''"
    by (simp add: press_def)
  show ?thesis
    using escape_keydown_frame [OF r0, of "press ''Escape'' 4"]
      escape_keydown_frame [OF r, of "press ''Escape'' 4"] c o k
    by simp
qed

end
